theory Spec2Isabelle
  imports Complex_Main
begin

section \<open>Data model of server.js\<close>

text \<open>
  The server keeps four MongoDB collections, one for each model (User, ClassSession,
  Exam, Note). A collection is
  modelled as the list of its documents in insertion order, so that \<open>findOne\<close> is the
  first match and \<open>find\<close> is a filter. An ObjectId is an opaque natural number.
\<close>

type_synonym oid = nat

text \<open>A JSON value of a request body; \<open>JId\<close> is a value that casts to an ObjectId.\<close>

datatype jsval = JNull | JBool bool | JNum int | JStr string | JId oid

type_synonym jsobj = "string \<rightharpoonup> jsval"

text \<open>
  A property of \<open>req.body\<close> that a handler reads as one value: missing, or \<open>null\<close>,
  a boolean, a number, a string, or an array or object (one case: the handlers and the
  libraries treat the two alike). Numbers are taken as integers.
\<close>

datatype field = FMissing | FNull | FBool bool | FNum int | FStr string | FComposite

text \<open>UserSchema, with its sub-document \<open>viewers: [{ name, joinedAt }]\<close>.\<close>

record viewer =
  name :: string
  joinedAt :: nat

record user =
  u_id :: oid
  username :: string
  password_hash :: string
  family_code :: string
  viewers :: "viewer list"

text \<open>
  ClassSchema, ExamSchema and NoteSchema share the shape \<open>_id\<close>, \<open>owner_id\<close> and
  further paths; the further paths are kept as an object.
\<close>

record document =
  d_id :: oid
  owner_id :: oid
  paths :: jsobj

datatype kind = KClass | KExam | KNote

record db =
  User :: "user list"
  ClassSession :: "document list"
  Exam :: "document list"
  Note :: "document list"

fun coll :: "kind \<Rightarrow> db \<Rightarrow> document list" where
  "coll KClass s = ClassSession s"
| "coll KExam s = Exam s"
| "coll KNote s = Note s"

fun set_coll :: "kind \<Rightarrow> document list \<Rightarrow> db \<Rightarrow> db" where
  "set_coll KClass ds s = s\<lparr>ClassSession := ds\<rparr>"
| "set_coll KExam ds s = s\<lparr>Exam := ds\<rparr>"
| "set_coll KNote ds s = s\<lparr>Note := ds\<rparr>"

text \<open>
  What an exception caught by a handler carries in \<open>e.message\<close>: a failed schema
  validation at \<open>save()\<close> (\<open>required: true\<close>, a failed cast), a violated unique
  index, a value of a query filter that does not cast, or an argument of bcryptjs that
  is not a string.
\<close>

datatype thrown = ValidationError | DuplicateKeyError | CastError | IllegalArguments

text \<open>The JSON bodies the handlers send, and a response as status and body.\<close>

datatype body =
  Error string
| Caught thrown
| UserCreated string
| LoggedIn string string
| Joined string
| LeftFamily
| Deleted
| Doc document
| Docs "document list"
| ViewerList "viewer list"

datatype response = Response nat body

text \<open>
  The libraries the server calls are parameters: bcryptjs (\<open>hash\<close> with its salt,
  \<open>compare\<close> on two strings), jsonwebtoken (\<open>sign\<close> and \<open>verify\<close> under
  JWT_SECRET, \<open>verify\<close> giving the \<open>id\<close> claim of a token it accepts), mongoose's
  cast of the paths of a schema other than \<open>_id\<close> and \<open>owner_id\<close>, and the ObjectId
  that a string of 12 or of 24 characters denotes, if it denotes one.
\<close>

record libs =
  bcrypt_hash :: "string \<Rightarrow> string"
  bcrypt_compare :: "string \<Rightarrow> string \<Rightarrow> bool"
  jwt_sign :: "oid \<Rightarrow> string"
  jwt_verify :: "string \<Rightarrow> oid option"
  cast_fields :: "kind \<Rightarrow> jsobj \<Rightarrow> jsobj option"
  objectId_of :: "string \<Rightarrow> oid option"

section \<open>Storage operations\<close>

definition findOne_username :: "user list \<Rightarrow> string \<Rightarrow> user option" where
  "findOne_username us un = find (\<lambda>u. username u = un) us"

definition findOne_code :: "user list \<Rightarrow> string \<Rightarrow> user option" where
  "findOne_code us c = find (\<lambda>u. family_code u = c) us"

definition findById :: "user list \<Rightarrow> oid \<Rightarrow> user option" where
  "findById us i = find (\<lambda>u. u_id u = i) us"

text \<open>
  \<open>save()\<close> of a new User: the three \<open>required: true\<close> string paths must be non-empty,
  then the insert is rejected when \<open>_id\<close> or one of the two \<open>unique: true\<close> paths is
  already taken.
\<close>

definition insert_user :: "user list \<Rightarrow> user \<Rightarrow> thrown + user list" where
  "insert_user us u =
     (if username u = [] \<or> password_hash u = [] \<or> family_code u = [] then Inl ValidationError
      else if u_id u \<in> set (map u_id us) \<or> username u \<in> set (map username us)
              \<or> family_code u \<in> set (map family_code us) then Inl DuplicateKeyError
      else Inr (us @ [u]))"

text \<open>\<open>save()\<close> of a User that was read from the collection: an update by \<open>_id\<close>.\<close>

definition save_user :: "user list \<Rightarrow> user \<Rightarrow> user list" where
  "save_user us u = map (\<lambda>w. if u_id w = u_id u then u else w) us"

text \<open>\<open>find({ owner_id })\<close> and \<open>deleteOne({ _id, owner_id })\<close> on a record collection.\<close>

definition find_owned :: "document list \<Rightarrow> oid \<Rightarrow> document list" where
  "find_owned ds i = filter (\<lambda>d. owner_id d = i) ds"

fun deleteOne :: "oid \<Rightarrow> oid \<Rightarrow> document list \<Rightarrow> document list" where
  "deleteOne i own [] = []"
| "deleteOne i own (d # ds) =
     (if d_id d = i \<and> owner_id d = own then ds else d # deleteOne i own ds)"

text \<open>
  The cast of the string \<open>req.params.id\<close> in the filter of \<open>deleteOne\<close>: a string
  that has neither 12 nor 24 characters is no ObjectId, and the query throws.
\<close>

definition cast_ObjectId :: "libs \<Rightarrow> string \<Rightarrow> oid option" where
  "cast_ObjectId X i =
     (if length i \<noteq> 12 \<and> length i \<noteq> 24 then None else objectId_of X i)"

text \<open>
  \<open>new Model(obj)\<close> followed by \<open>save()\<close>: \<open>owner_id\<close> is required and must cast to
  an ObjectId, \<open>_id\<close> is the one the object carries or else the generated one, the other
  paths are cast by the schema, and the insert is rejected when \<open>_id\<close> is taken.
\<close>

definition new_document :: "libs \<Rightarrow> kind \<Rightarrow> oid \<Rightarrow> jsobj \<Rightarrow> thrown + document" where
  "new_document X k gen obj =
     (case obj ''owner_id'' of
        Some (JId own) \<Rightarrow>
          (case cast_fields X k obj of
             None \<Rightarrow> Inl ValidationError
           | Some fs \<Rightarrow>
               (case obj ''_id'' of
                  None \<Rightarrow> Inr \<lparr>d_id = gen, owner_id = own, paths = fs\<rparr>
                | Some (JId i) \<Rightarrow> Inr \<lparr>d_id = i, owner_id = own, paths = fs\<rparr>
                | Some _ \<Rightarrow> Inl ValidationError))
      | _ \<Rightarrow> Inl ValidationError)"

definition insert_document :: "document list \<Rightarrow> document \<Rightarrow> thrown + document list" where
  "insert_document ds d =
     (if d_id d \<in> set (map d_id ds) then Inl DuplicateKeyError else Inr (ds @ [d]))"

section \<open>Helpers\<close>

definition chars :: string where
  "chars = ''ABCDEFGHJKLMNPQRSTUVWXYZ23456789''"

text \<open>\<open>String.prototype.charAt\<close>: the empty string outside the range.\<close>

definition charAt :: "string \<Rightarrow> int \<Rightarrow> string" where
  "charAt s i = (if 0 \<le> i \<and> i < int (length s) then [s ! nat i] else [])"

text \<open>
  \<open>generateCode\<close>: the loop \<open>for (let i = 0; i < 5; i++)\<close>, where \<open>rnd i\<close> is the value
  of the call of \<open>Math.random()\<close> in round \<open>i\<close>. The product with 32 only changes the
  exponent of a double, so the real product is the one the code computes.
\<close>

function generateCode_loop :: "(nat \<Rightarrow> real) \<Rightarrow> nat \<Rightarrow> string \<Rightarrow> string" where
  "generateCode_loop rnd i result =
     (if i < 5
      then generateCode_loop rnd (i + 1)
             (result @ charAt chars \<lfloor>rnd i * real (length chars)\<rfloor>)
      else result)"
  by pat_completeness auto
termination
  by (relation "measure (\<lambda>(rnd, i, result). 5 - i)") auto

declare generateCode_loop.simps [simp del]

definition generateCode :: "(nat \<Rightarrow> real) \<Rightarrow> string" where
  "generateCode rnd = generateCode_loop rnd 0 []"

section \<open>Routes\<close>

text \<open>
  POST /auth/register. \<open>gen\<close> is the ObjectId generated for the new document. The
  handler has no I/O failure of the store in this model; what \<open>save()\<close> throws by
  validation or by a unique index is caught and answered with status 500.
\<close>

definition register :: "libs \<Rightarrow> db \<Rightarrow> string \<Rightarrow> string \<Rightarrow> (nat \<Rightarrow> real) \<Rightarrow> oid \<Rightarrow> response \<times> db" where
  "register X s un pw rnd gen =
     (case findOne_username (User s) un of
        Some existing \<Rightarrow> (Response 400 (Error ''Username already exists''), s)
      | None \<Rightarrow>
          (let hash = bcrypt_hash X pw;
               code = generateCode rnd;
               newUser = \<lparr>u_id = gen, username = un, password_hash = hash,
                          family_code = code, viewers = []\<rparr>
           in case insert_user (User s) newUser of
                Inl e \<Rightarrow> (Response 500 (Caught e), s)
              | Inr us \<Rightarrow> (Response 200 (UserCreated code), s\<lparr>User := us\<rparr>)))"

text \<open>
  A string that may be missing (the \<open>Authorization\<close> header, the name given to
  \<open>leave\<close>) is a \<open>string option\<close>; \<open>if (x)\<close> on it holds for a string that is
  present and not empty.
\<close>

definition truthy :: "string option \<Rightarrow> bool" where
  "truthy x = (case x of None \<Rightarrow> False | Some v \<Rightarrow> v \<noteq> [])"

text \<open>\<open>if (x)\<close> on a property of the body.\<close>

fun truthy_field :: "field \<Rightarrow> bool" where
  "truthy_field FMissing = False"
| "truthy_field FNull = False"
| "truthy_field (FBool b) = b"
| "truthy_field (FNum n) = (n \<noteq> 0)"
| "truthy_field (FStr v) = (v \<noteq> [])"
| "truthy_field FComposite = True"

text \<open>
  \<open>toString()\<close> of an integer: its decimal digits, after a minus sign if negative
  (JavaScript prints an integer so below \<open>10^21\<close> in magnitude).
\<close>

definition digit :: "nat \<Rightarrow> char" where
  "digit d = ''0123456789'' ! (d mod 10)"

function dec_nat :: "nat \<Rightarrow> string" where
  "dec_nat n = (if n < 10 then [digit n] else dec_nat (n div 10) @ [digit n])"
  by pat_completeness auto
termination
  by (relation "measure (\<lambda>n. n)") auto

declare dec_nat.simps [simp del]

definition toString :: "int \<Rightarrow> string" where
  "toString n = (if n < 0 then CHR ''-'' # dec_nat (nat (- n)) else dec_nat (nat n))"

text \<open>
  The cast of a value to the String path \<open>name\<close> of a viewer, for the values that
  \<open>join\<close> pushes, which are truthy: a string is kept, a number and a boolean are
  rendered by \<open>toString()\<close>, an array or object does not cast (\<open>None\<close>), and then
  \<open>save()\<close> throws. \<open>null\<close> and a missing value are falsy and never pushed; they
  are given \<open>None\<close> as well.
\<close>

fun castString :: "field \<Rightarrow> string option" where
  "castString (FStr v) = Some v"
| "castString (FNum n) = Some (toString n)"
| "castString (FBool b) = Some (if b then ''true'' else ''false'')"
| "castString FComposite = None"
| "castString FNull = None"
| "castString FMissing = None"

text \<open>
  \<open>bcrypt.compare(s, hash)\<close>: rejected with \<open>Illegal arguments\<close> unless \<open>s\<close> is a
  string (the stored hash always is one).
\<close>

definition compare :: "libs \<Rightarrow> field \<Rightarrow> string \<Rightarrow> thrown + bool" where
  "compare X p hash =
     (case p of FStr v \<Rightarrow> Inr (bcrypt_compare X v hash) | _ \<Rightarrow> Inl IllegalArguments)"

text \<open>
  POST /auth/login. The username is a string; the password is whatever the body holds.
  What \<open>bcrypt.compare\<close> throws is caught and answered with status 500.
\<close>

definition login :: "libs \<Rightarrow> db \<Rightarrow> string \<Rightarrow> field \<Rightarrow> response" where
  "login X s un pw =
     (case findOne_username (User s) un of
        None \<Rightarrow> Response 400 (Error ''Invalid credentials'')
      | Some u \<Rightarrow>
          (case compare X pw (password_hash u) of
             Inl e \<Rightarrow> Response 500 (Caught e)
           | Inr valid \<Rightarrow>
               if \<not> valid then Response 400 (Error ''Invalid credentials'')
               else Response 200 (LoggedIn (jwt_sign X (u_id u)) (family_code u))))"

text \<open>
  POST /auth/join; \<open>now\<close> is the \<open>Date.now\<close> default of \<open>joinedAt\<close>. The name is
  whatever the body holds. \<open>v.name === name\<close> compares a stored string with the value
  as it came, before any cast: it holds for a string of the same text only. The pushed
  name is cast when the sub-document is made; when it does not cast, \<open>save()\<close> throws,
  nothing is stored and the answer is status 500.
\<close>

definition join :: "db \<Rightarrow> string \<Rightarrow> field \<Rightarrow> nat \<Rightarrow> response \<times> db" where
  "join s code nm now =
     (case findOne_code (User s) code of
        None \<Rightarrow> (Response 404 (Error ''Invalid Access Code''), s)
      | Some u \<Rightarrow>
          (if truthy_field nm
           then (let exists = find (\<lambda>v. FStr (name v) = nm) (viewers u)
                 in if exists = None
                    then (case castString nm of
                            None \<Rightarrow> (Response 500 (Caught ValidationError), s)
                          | Some n \<Rightarrow>
                              (Response 200 (Joined code),
                               s\<lparr>User := save_user (User s)
                                   (u\<lparr>viewers := viewers u @ [\<lparr>name = n, joinedAt = now\<rparr>]\<rparr>)\<rparr>))
                    else (Response 200 (Joined code), s))
           else (Response 200 (Joined code), s)))"

text \<open>POST /auth/leave.\<close>

definition leave :: "db \<Rightarrow> string \<Rightarrow> string option \<Rightarrow> response \<times> db" where
  "leave s code nm =
     (case findOne_code (User s) code of
        None \<Rightarrow> (Response 404 (Error ''Invalid Access Code''), s)
      | Some u \<Rightarrow>
          (Response 200 LeftFamily,
           if truthy nm
           then s\<lparr>User := save_user (User s)
                  (u\<lparr>viewers := filter (\<lambda>v. name v \<noteq> the nm) (viewers u)\<rparr>)\<rparr>
           else s))"

text \<open>
  The middleware \<open>authenticate\<close>. \<open>split_space\<close> is \<open>split(' ')\<close>, \<open>nth_opt\<close> is
  indexing an array (\<open>undefined\<close> past its end), and \<open>jwt.verify\<close> throws on a
  token that is \<open>undefined\<close> as on any token it does not accept.
\<close>

fun split_space :: "string \<Rightarrow> string list" where
  "split_space [] = [[]]"
| "split_space (c # cs) =
     (if c = CHR '' '' then [] # split_space cs
      else (case split_space cs of
              [] \<Rightarrow> [[c]]
            | p # ps \<Rightarrow> (c # p) # ps))"

fun nth_opt :: "'a list \<Rightarrow> nat \<Rightarrow> 'a option" where
  "nth_opt [] n = None"
| "nth_opt (x # xs) 0 = Some x"
| "nth_opt (x # xs) (Suc n) = nth_opt xs n"

definition verify :: "libs \<Rightarrow> string option \<Rightarrow> oid option" where
  "verify X token = (case token of None \<Rightarrow> None | Some t \<Rightarrow> jwt_verify X t)"

definition authenticate :: "libs \<Rightarrow> string option \<Rightarrow> response + oid" where
  "authenticate X authHeader =
     (if \<not> truthy authHeader then Inl (Response 401 (Error ''Access denied''))
      else (let token = nth_opt (split_space (the authHeader)) 1
            in case verify X token of
                 Some userId \<Rightarrow> Inr userId
               | None \<Rightarrow> Inl (Response 401 (Error ''Invalid Token''))))"

text \<open>GET /viewers, after \<open>authenticate\<close> has set \<open>req.userId\<close>.\<close>

definition get_viewers :: "db \<Rightarrow> oid \<Rightarrow> response" where
  "get_viewers s userId =
     (case findById (User s) userId of
        None \<Rightarrow> Response 404 (Error ''User not found'')
      | Some u \<Rightarrow> Response 200 (ViewerList (viewers u)))"


text \<open>GET /classes, /exams and /notes, after \<open>authenticate\<close>.\<close>

definition get_owned :: "kind \<Rightarrow> db \<Rightarrow> oid \<Rightarrow> response" where
  "get_owned k s userId = Response 200 (Docs (find_owned (coll k s) userId))"

text \<open>
  POST /classes, /exams and /notes, after \<open>authenticate\<close>. The object passed to the
  model is \<open>{ ...req.body, owner_id: req.userId }\<close>: the body's properties, then
  \<open>owner_id\<close> set. These handlers have no \<open>try\<close>: when \<open>save()\<close> throws, no response is
  sent, which is \<open>None\<close>.
\<close>

definition post_record ::
  "libs \<Rightarrow> kind \<Rightarrow> db \<Rightarrow> oid \<Rightarrow> jsobj \<Rightarrow> oid \<Rightarrow> response option \<times> db" where
  "post_record X k s userId req_body gen =
     (let obj = req_body ++ [''owner_id'' \<mapsto> JId userId]
      in case new_document X k gen obj of
           Inl e \<Rightarrow> (None, s)
         | Inr d \<Rightarrow>
             (case insert_document (coll k s) d of
                Inl e \<Rightarrow> (None, s)
              | Inr ds \<Rightarrow> (Some (Response 200 (Doc d)), set_coll k ds s)))"

text \<open>
  DELETE /classes/:id, /exams/:id and /notes/:id, after \<open>authenticate\<close>; \<open>i\<close> is the
  string \<open>req.params.id\<close>. When it does not cast to an ObjectId the query throws, which
  is caught and answered with status 500.
\<close>

definition delete_record :: "libs \<Rightarrow> kind \<Rightarrow> db \<Rightarrow> oid \<Rightarrow> string \<Rightarrow> response \<times> db" where
  "delete_record X k s userId i =
     (case cast_ObjectId X i of
        None \<Rightarrow> (Response 500 (Caught CastError), s)
      | Some j \<Rightarrow> (Response 200 Deleted, set_coll k (deleteOne j userId (coll k s)) s))"

section \<open>Invariants of the store\<close>

text \<open>
  The unique indexes of the User collection keep ids, usernames and family codes
  unique. Within one viewer list the names are non-empty and unique as long as the names
  that are joined are strings; that part is the invariant of the specification's data
  model.
\<close>

definition store_ok :: "db \<Rightarrow> bool" where
  "store_ok s \<longleftrightarrow>
     distinct (map u_id (User s)) \<and>
     distinct (map username (User s)) \<and>
     distinct (map family_code (User s)) \<and>
     (\<forall>u \<in> set (User s). [] \<notin> set (map name (viewers u)) \<and> distinct (map name (viewers u)))"

definition empty_db :: db where
  "empty_db = \<lparr>User = [], ClassSession = [], Exam = [], Note = []\<rparr>"

section \<open>An example store\<close>

text \<open>
  Two owners, one with a viewer, and one class session each; stand-ins for the
  libraries. The theorems below are instantiated on them.
\<close>

fun hex_digit :: "char \<Rightarrow> nat option" where
  "hex_digit c =
     (if c \<in> set ''0123456789'' then Some (of_char c - 48)
      else if c \<in> set ''abcdef'' then Some (of_char c - 87)
      else None)"

fun hex_value_from :: "nat \<Rightarrow> string \<Rightarrow> nat option" where
  "hex_value_from a [] = Some a"
| "hex_value_from a (c # cs) =
     (case hex_digit c of None \<Rightarrow> None | Some d \<Rightarrow> hex_value_from (16 * a + d) cs)"

definition hex_value :: "string \<Rightarrow> oid option" where
  "hex_value i = hex_value_from 0 i"

definition libs0 :: libs where
  "libs0 = \<lparr>bcrypt_hash = (\<lambda>p. ''$2a$10$'' @ p),
            bcrypt_compare = (\<lambda>p h. h = ''$2a$10$'' @ p),
            jwt_sign = (\<lambda>i. replicate i (CHR ''j'')),
            jwt_verify = (\<lambda>t. if t \<noteq> [] \<and> set t \<subseteq> {CHR ''j''} then Some (length t) else None),
            cast_fields = (\<lambda>k obj. Some (obj |` (- {''_id'', ''owner_id''}))),
            objectId_of = hex_value\<rparr>"

definition alice :: user where
  "alice = \<lparr>u_id = 1, username = ''alice'', password_hash = ''$2a$10$pw1'',
            family_code = ''AAAAA'', viewers = [\<lparr>name = ''Mom'', joinedAt = 100\<rparr>]\<rparr>"

definition bob :: user where
  "bob = \<lparr>u_id = 2, username = ''bob'', password_hash = ''$2a$10$pw2'',
          family_code = ''B2C3D'', viewers = []\<rparr>"

definition maths :: document where
  "maths = \<lparr>d_id = 10, owner_id = 1, paths = [''subject'' \<mapsto> JStr ''Maths'']\<rparr>"

definition physics :: document where
  "physics = \<lparr>d_id = 11, owner_id = 2, paths = [''subject'' \<mapsto> JStr ''Physics'']\<rparr>"

definition db0 :: db where
  "db0 = \<lparr>User = [alice, bob], ClassSession = [maths, physics], Exam = [], Note = []\<rparr>"

text \<open>The store after one and after two joins of the number 5 under the code of bob.\<close>

definition db_five :: db where
  "db_five = db0\<lparr>User := [alice, bob\<lparr>viewers := [\<lparr>name = ''5'', joinedAt = 7\<rparr>]\<rparr>]\<rparr>"

definition db_five_twice :: db where
  "db_five_twice =
     db0\<lparr>User := [alice, bob\<lparr>viewers := [\<lparr>name = ''5'', joinedAt = 7\<rparr>,
                                             \<lparr>name = ''5'', joinedAt = 8\<rparr>]\<rparr>]\<rparr>"

section \<open>Auxiliary lemmas\<close>

subsection \<open>generateCode\<close>

lemma generateCode_loop_eq:
  "generateCode_loop rnd i r =
     r @ concat (map (\<lambda>j. charAt chars \<lfloor>rnd j * real (length chars)\<rfloor>) [i..<5])"
proof (induction rnd i r rule: generateCode_loop.induct)
  case (1 rnd i r)
  show ?case
  proof (cases "i < 5")
    case True
    then have "generateCode_loop rnd i r =
        generateCode_loop rnd (i + 1) (r @ charAt chars \<lfloor>rnd i * real (length chars)\<rfloor>)"
      by (subst generateCode_loop.simps) simp
    also have "\<dots> = (r @ charAt chars \<lfloor>rnd i * real (length chars)\<rfloor>) @
        concat (map (\<lambda>j. charAt chars \<lfloor>rnd j * real (length chars)\<rfloor>) [i + 1..<5])"
      using True by (rule "1.IH")
    also have "\<dots> = r @ concat (map (\<lambda>j. charAt chars \<lfloor>rnd j * real (length chars)\<rfloor>) [i..<5])"
      using True by (simp add: upt_conv_Cons)
    finally show ?thesis .
  next
    case False
    then show ?thesis by (subst generateCode_loop.simps) simp
  qed
qed

lemma generateCode_eq:
  "generateCode rnd = concat (map (\<lambda>j. charAt chars \<lfloor>rnd j * real (length chars)\<rfloor>) [0..<5])"
  by (simp add: generateCode_def generateCode_loop_eq)

lemma charAt_in_range:
  assumes "0 \<le> r" "r < 1"
  shows "\<exists>c \<in> set chars. charAt chars \<lfloor>r * real (length chars)\<rfloor> = [c]"
proof -
  let ?n = "length chars"
  let ?k = "\<lfloor>r * real ?n\<rfloor>"
  have pos: "0 < ?n" by (simp add: chars_def)
  have lo: "0 \<le> ?k" using assms by simp
  have "r * real ?n < real ?n" using assms pos by simp
  then have hi: "?k < int ?n" by (simp add: floor_less_iff)
  then have "nat ?k < ?n" using lo by linarith
  then have mem: "chars ! nat ?k \<in> set chars" by (rule nth_mem)
  have "charAt chars ?k = [chars ! nat ?k]"
    unfolding charAt_def using lo hi by (simp only: if_True simp_thms)
  with mem show ?thesis by blast
qed

lemma generateCode_shape:
  assumes "\<forall>i<5. 0 \<le> rnd i \<and> rnd i < 1"
  shows "length (generateCode rnd) = 5 \<and> set (generateCode rnd) \<subseteq> set chars"
proof -
  have each: "\<exists>c \<in> set chars. charAt chars \<lfloor>rnd j * real (length chars)\<rfloor> = [c]"
    if "j < 5" for j
    using assms that by (intro charAt_in_range) auto
  have len: "length (concat (map (\<lambda>j. charAt chars \<lfloor>rnd j * real (length chars)\<rfloor>) js)) = length js
     \<and> set (concat (map (\<lambda>j. charAt chars \<lfloor>rnd j * real (length chars)\<rfloor>) js)) \<subseteq> set chars"
    if "\<forall>j \<in> set js. j < 5" for js
    using that
  proof (induction js)
    case Nil
    then show ?case by simp
  next
    case (Cons j js)
    then have "j < 5" by simp
    from each[OF this] obtain c where "c \<in> set chars"
      "charAt chars \<lfloor>rnd j * real (length chars)\<rfloor> = [c]" by blast
    with Cons show ?case by simp
  qed
  have "\<forall>j \<in> set [0..<5]. j < (5::nat)" by simp
  from len[OF this] show ?thesis by (simp add: generateCode_eq)
qed

lemma distinct_chars: "distinct chars"
  by (simp add: chars_def)

lemma card_chars: "card (set chars) = 32"
  using distinct_card[OF distinct_chars] by (simp add: chars_def)

lemma set_chars:
  "set chars = (set ''ABCDEFGHIJKLMNOPQRSTUVWXYZ'' \<union> set ''0123456789'') - set ''IO01''"
  by (auto simp: chars_def)

subsection \<open>Queries and updates\<close>



lemma find_SomeD: "find P xs = Some u \<Longrightarrow> u \<in> set xs \<and> P u"
  by (induction xs) (auto split: if_splits)

lemma find_after_save:
  "find P us = Some u \<Longrightarrow> P u' \<Longrightarrow> u_id u' = u_id u \<Longrightarrow> find P (save_user us u') = Some u'"
  by (induction us) (auto simp: save_user_def split: if_splits)

lemma save_user_eq:
  assumes "distinct (map u_id us)" "u \<in> set us" "u_id u' = u_id u"
  shows "save_user us u' = map (\<lambda>w. if w = u then u' else w) us"
proof -
  have inj: "inj_on u_id (set us)" using assms(1) by (simp add: distinct_map)
  have "(u_id w = u_id u') = (w = u)" if "w \<in> set us" for w
    using inj that assms(2,3) by (auto dest: inj_onD)
  then show ?thesis unfolding save_user_def by (intro map_cong) auto
qed


lemma coll_set_coll: "coll k (set_coll k ds s) = ds"
  by (cases k) simp_all

lemma coll_set_coll_other: "k' \<noteq> k \<Longrightarrow> coll k' (set_coll k ds s) = coll k' s"
  by (cases k; cases k') simp_all

lemma set_coll_same: "set_coll k (coll k s) s = s"
  by (cases k) simp_all

lemma User_set_coll: "User (set_coll k ds s) = User s"
  by (cases k) simp_all

subsection \<open>deleteOne\<close>

lemma deleteOne_no_match:
  "\<forall>d \<in> set ds. \<not> (d_id d = i \<and> owner_id d = own) \<Longrightarrow> deleteOne i own ds = ds"
  by (induction ds) auto

lemma deleteOne_cases:
  "deleteOne i own ds = ds \<or>
   (\<exists>xs d ys. ds = xs @ d # ys \<and> deleteOne i own ds = xs @ ys \<and> d_id d = i \<and> owner_id d = own)"
proof (induction ds)
  case Nil
  then show ?case by simp
next
  case (Cons a ds)
  show ?case
  proof (cases "d_id a = i \<and> owner_id a = own")
    case True
    then have "a # ds = [] @ a # ds \<and> deleteOne i own (a # ds) = [] @ ds" by simp
    with True show ?thesis by blast
  next
    case False
    from Cons.IH show ?thesis
    proof
      assume "deleteOne i own ds = ds"
      with False have "deleteOne i own (a # ds) = a # ds" by auto
      then show ?thesis by (rule disjI1)
    next
      assume "\<exists>xs d ys. ds = xs @ d # ys \<and> deleteOne i own ds = xs @ ys \<and> d_id d = i \<and> owner_id d = own"
      then obtain xs d ys where h: "ds = xs @ d # ys" "deleteOne i own ds = xs @ ys"
        "d_id d = i" "owner_id d = own" by blast
      then have "a # ds = (a # xs) @ d # ys \<and> deleteOne i own (a # ds) = (a # xs) @ ys"
        using False by auto
      with h(3,4) show ?thesis by blast
    qed
  qed
qed

subsection \<open>The Authorization header\<close>

lemma split_space_nonempty: "split_space h \<noteq> []"
  by (induction h) (auto split: list.splits)

lemma split_space_no_space: "CHR '' '' \<notin> set h \<Longrightarrow> split_space h = [h]"
  by (induction h) auto

lemma split_space_first:
  "CHR '' '' \<notin> set a \<Longrightarrow> split_space (a @ CHR '' '' # t) = a # split_space t"
  by (induction a) auto

lemma split_space_hd: "nth_opt (split_space t) 0 = Some (takeWhile (\<lambda>c. c \<noteq> CHR '' '') t)"
  by (induction t) (auto split: list.splits)

subsection \<open>The example store\<close>


lemma generateCode_zero: "generateCode (\<lambda>i. 0) = ''AAAAA''"
  by (simp add: generateCode_eq charAt_def chars_def upt_conv_Cons)

lemma generateCode_fifths: "generateCode (\<lambda>i. real i / 5) = ''AGNV3''"
  by (simp add: generateCode_eq charAt_def chars_def upt_conv_Cons)

subsection \<open>join\<close>

lemma filter_present_length:
  "c \<in> f ` set xs \<Longrightarrow> 1 \<le> length (filter (\<lambda>v. f v = c) xs)"
  by (induction xs) auto

lemma join_present:
  assumes "findOne_code (User s) code = Some u" "n \<in> name ` set (viewers u)"
  shows "join s code (FStr n) t = (Response 200 (Joined code), s)"
proof -
  from assms(2) have "find (\<lambda>v. FStr (name v) = FStr n) (viewers u) \<noteq> None"
    by (auto simp: find_None_iff)
  with assms(1) show ?thesis by (auto simp: join_def)
qed

lemma join_absent:
  assumes "findOne_code (User s) code = Some u" "n \<noteq> []" "n \<notin> name ` set (viewers u)"
  shows "join s code (FStr n) t =
    (Response 200 (Joined code),
     s\<lparr>User := save_user (User s) (u\<lparr>viewers := viewers u @ [\<lparr>name = n, joinedAt = t\<rparr>]\<rparr>)\<rparr>)"
proof -
  from assms(3) have "find (\<lambda>v. FStr (name v) = FStr n) (viewers u) = None"
    by (auto simp: find_None_iff)
  with assms(1,2) show ?thesis by (simp add: join_def)
qed

lemma join_falsy: "\<not> truthy_field nm \<Longrightarrow> snd (join s code nm t) = s"
  by (simp add: join_def split: option.splits)

lemma join_composite:
  "findOne_code (User s) code = Some u \<Longrightarrow>
   join s code FComposite t = (Response 500 (Caught ValidationError), s)"
  by (simp add: join_def find_None_iff)

lemma toString_5: "toString 5 = ''5''"
  by (simp add: toString_def dec_nat.simps digit_def)

subsection \<open>The invariant is kept\<close>

lemma store_ok_empty_db: "store_ok empty_db"
  by (simp add: store_ok_def empty_db_def)

lemma store_ok_save_user:
  assumes ok: "store_ok s" and u: "u \<in> set (User s)"
    and vs: "[] \<notin> set (map name vs)" "distinct (map name vs)"
  shows "store_ok (s\<lparr>User := save_user (User s) (u\<lparr>viewers := vs\<rparr>)\<rparr>)"
proof -
  let ?u' = "u\<lparr>viewers := vs\<rparr>"
  from ok have di: "distinct (map u_id (User s))" by (simp add: store_ok_def)
  have eq: "save_user (User s) ?u' = map (\<lambda>w. if w = u then ?u' else w) (User s)"
    by (rule save_user_eq [OF di u]) simp
  have m1: "map u_id (save_user (User s) ?u') = map u_id (User s)"
    and m2: "map username (save_user (User s) ?u') = map username (User s)"
    and m3: "map family_code (save_user (User s) ?u') = map family_code (User s)"
    unfolding eq by (simp_all add: o_def if_distrib cong: if_cong)
  have mem: "w \<in> set (User s) \<or> w = ?u'" if "w \<in> set (save_user (User s) ?u')" for w
    using that unfolding eq by (auto split: if_splits)
  have v: "[] \<notin> set (map name (viewers w)) \<and> distinct (map name (viewers w))"
    if "w \<in> set (save_user (User s) ?u')" for w
  proof -
    from mem [OF that] show ?thesis
    proof
      assume "w \<in> set (User s)"
      with ok show ?thesis unfolding store_ok_def by blast
    next
      assume "w = ?u'"
      with vs show ?thesis by simp
    qed
  qed
  from ok have "distinct (map u_id (User s))" "distinct (map username (User s))"
    "distinct (map family_code (User s))"
    by (simp_all add: store_ok_def)
  with v show ?thesis
    unfolding store_ok_def by (simp add: m1 m2 m3 del: set_map)
qed

text \<open>
  \<open>join\<close> keeps the invariant for the names that are strings. It does not for every
  name: a number is compared before it is cast, see \<open>db_five_twice\<close>.
\<close>

lemma join_store_ok: "store_ok s \<Longrightarrow> store_ok (snd (join s code (FStr n) now))"
proof -
  assume ok: "store_ok s"
  show ?thesis
  proof (cases "findOne_code (User s) code")
    case None
    then show ?thesis using ok by (simp add: join_def)
  next
    case (Some u)
    then have u: "u \<in> set (User s)"
      by (auto simp: findOne_code_def dest: find_SomeD)
    from ok u have vu: "[] \<notin> set (map name (viewers u))" "distinct (map name (viewers u))"
      by (auto simp: store_ok_def)
    show ?thesis
    proof (cases "n \<noteq> [] \<and> n \<notin> name ` set (viewers u)")
      case False
      then have "snd (join s code (FStr n) now) = s"
        using join_present [OF Some, of n now] join_falsy [of "FStr n" s code now] by auto
      with ok show ?thesis by simp
    next
      case True
      let ?vs = "viewers u @ [\<lparr>name = n, joinedAt = now\<rparr>]"
      have "[] \<notin> set (map name ?vs)" "distinct (map name ?vs)"
        using vu True by auto
      from store_ok_save_user [OF ok u this]
      show ?thesis using join_absent [OF Some, of n now] True by simp
    qed
  qed
qed

lemma leave_store_ok: "store_ok s \<Longrightarrow> store_ok (snd (leave s code nm))"
proof -
  assume ok: "store_ok s"
  show ?thesis
  proof (cases "findOne_code (User s) code")
    case None
    then show ?thesis using ok by (simp add: leave_def)
  next
    case (Some u)
    then have u: "u \<in> set (User s)"
      by (auto simp: findOne_code_def dest: find_SomeD)
    from ok u have vu: "[] \<notin> set (map name (viewers u))" "distinct (map name (viewers u))"
      by (auto simp: store_ok_def)
    let ?vs = "filter (\<lambda>v. name v \<noteq> the nm) (viewers u)"
    have "[] \<notin> set (map name ?vs)" "distinct (map name ?vs)"
      using vu by (auto simp: distinct_map_filter)
    from store_ok_save_user [OF ok u this]
    show ?thesis using Some ok by (simp add: leave_def)
  qed
qed

lemma register_store_ok: "store_ok s \<Longrightarrow> store_ok (snd (register X s un pw rnd gen))"
  by (auto simp: register_def insert_user_def store_ok_def Let_def split: option.splits)

lemma post_record_store_ok: "store_ok s \<Longrightarrow> store_ok (snd (post_record X k s i b gen))"
  by (auto simp: post_record_def store_ok_def User_set_coll Let_def split: sum.splits)

lemma delete_record_store_ok: "store_ok s \<Longrightarrow> store_ok (snd (delete_record X k s i j))"
  by (simp add: delete_record_def store_ok_def User_set_coll split: option.splits)

section \<open>Registration\<close>

text \<open>
  C9. A second registration under a username that an Owner already has is answered with
  status 400 and \<open>Username already exists\<close> (DuplicateUsername), and the store, with
  it the set and the number of Owners, is unchanged.
\<close>

theorem register_duplicate_username:
  "u \<in> set (User s) \<Longrightarrow>
   register X s (username u) pw rnd gen = (Response 400 (Error ''Username already exists''), s)"
proof -
  assume "u \<in> set (User s)"
  then have "find (\<lambda>w. username w = username u) (User s) \<noteq> None"
    by (auto simp: find_None_iff)
  then show ?thesis
    by (auto simp: register_def findOne_username_def)
qed

theorem register_duplicate_username_witness:
  "alice \<in> set (User db0) \<and>
   register libs0 db0 ''alice'' ''other'' (\<lambda>i. 0) 3 =
     (Response 400 (Error ''Username already exists''), db0) \<and>
   length (User (snd (register libs0 db0 ''alice'' ''other'' (\<lambda>i. 0) 3))) = 2"
  using register_duplicate_username [of alice db0 libs0 "''other''" "\<lambda>i. 0" 3]
  by (simp add: db0_def alice_def)

text \<open>
  C2, as the specification states it, fails: the handler calls \<open>generateCode\<close> once and
  has no retry. With the draws that give \<open>AAAAA\<close>, the code of an existing Owner, the
  registration of a fresh username is answered with status 500 and nothing is stored.
\<close>

theorem register_collision_counterexample:
  "findOne_username (User db0) ''carol'' = None \<and>
   generateCode (\<lambda>i. 0) = family_code alice \<and>
   register libs0 db0 ''carol'' ''pw3'' (\<lambda>i. 0) 3 = (Response 500 (Caught DuplicateKeyError), db0)"
  by (simp add: register_def findOne_username_def insert_user_def generateCode_zero
      db0_def alice_def bob_def libs0_def Let_def)

text \<open>
  C2, amended. For a fresh username, \<open>register\<close> generates exactly one access code.
  When that code is the code of an existing Owner, the registration fails with status
  500 and the store is unchanged; when username, hash and code are non-empty and neither
  the generated id nor the code is taken, the new Owner is stored with that code and an
  empty viewer list, and the code is returned.
\<close>

theorem register_single_code:
  assumes "findOne_username (User s) un = None"
  shows "(generateCode rnd \<in> family_code ` set (User s) \<longrightarrow>
            (\<exists>e. register X s un pw rnd gen = (Response 500 (Caught e), s))) \<and>
         (un \<noteq> [] \<and> bcrypt_hash X pw \<noteq> [] \<and> generateCode rnd \<noteq> [] \<and>
          gen \<notin> u_id ` set (User s) \<and> generateCode rnd \<notin> family_code ` set (User s) \<longrightarrow>
            register X s un pw rnd gen =
              (Response 200 (UserCreated (generateCode rnd)),
               s\<lparr>User := User s @ [\<lparr>u_id = gen, username = un, password_hash = bcrypt_hash X pw,
                                     family_code = generateCode rnd, viewers = []\<rparr>]\<rparr>))"
proof -
  from assms have fresh: "un \<notin> username ` set (User s)"
    by (auto simp: findOne_username_def find_None_iff)
  show ?thesis
    using assms fresh by (auto simp: register_def insert_user_def Let_def)
qed

theorem register_single_code_witness:
  "findOne_username (User db0) ''carol'' = None \<and>
   register libs0 db0 ''carol'' ''pw3'' (\<lambda>i. real i / 5) 3 =
     (Response 200 (UserCreated ''AGNV3''),
      db0\<lparr>User := [alice, bob, \<lparr>u_id = 3, username = ''carol'', password_hash = ''$2a$10$pw3'',
                                family_code = ''AGNV3'', viewers = []\<rparr>]\<rparr>) \<and>
   (\<exists>e. register libs0 db0 ''carol'' ''pw3'' (\<lambda>i. 0) 3 = (Response 500 (Caught e), db0))"
proof -
  have f: "findOne_username (User db0) ''carol'' = None"
    by (simp add: findOne_username_def db0_def alice_def bob_def)
  from register_single_code [OF f, of "\<lambda>i. real i / 5" libs0 "''pw3''" 3]
    register_single_code [OF f, of "\<lambda>i. 0" libs0 "''pw3''" 3]
  show ?thesis
    using f by (simp add: generateCode_fifths generateCode_zero db0_def alice_def bob_def libs0_def)
qed

text \<open>
  C3, as the specification states it, fails in the size of the alphabet: the uppercase
  letters and digits without I, O, 0 and 1 are 32 symbols, and so is \<open>chars\<close>; no
  alphabet of 33 symbols is defined.
\<close>

theorem alphabet_size_counterexample:
  "length chars \<noteq> 33 \<and> card (set chars) \<noteq> 33 \<and>
   card ((set ''ABCDEFGHIJKLMNOPQRSTUVWXYZ'' \<union> set ''0123456789'') - set ''IO01'') \<noteq> 33"
  using card_chars by (simp add: set_chars [symmetric]) (simp add: chars_def)

text \<open>
  C3, amended. \<open>Math.random()\<close> returns a number in the interval from 0, inclusive, to
  1, exclusive. Then the access code returned by a successful registration has exactly
  5 characters, each one from the 32-symbol alphabet \<open>chars\<close>, which is the uppercase
  letters and the digits without I, O, 0 and 1; the code is the one stored with the new
  Owner.
\<close>

theorem register_code_shape:
  assumes "\<forall>i<5. 0 \<le> rnd i \<and> rnd i < 1"
    and "register X s un pw rnd gen = (Response 200 (UserCreated code), s')"
  shows "length code = 5 \<and> set code \<subseteq> set chars \<and>
         set chars = (set ''ABCDEFGHIJKLMNOPQRSTUVWXYZ'' \<union> set ''0123456789'') - set ''IO01'' \<and>
         card (set chars) = 32 \<and>
         (\<exists>u \<in> set (User s'). username u = un \<and> family_code u = code)"
proof -
  from assms(2) have code: "code = generateCode rnd"
    and new: "\<exists>u \<in> set (User s'). username u = un \<and> family_code u = code"
    by (auto simp: register_def Let_def split: option.splits sum.splits)
       (auto simp: insert_user_def split: if_splits)
  from generateCode_shape [OF assms(1)] code new set_chars card_chars
  show ?thesis by simp
qed

theorem register_code_shape_witness:
  "register libs0 db0 ''carol'' ''pw3'' (\<lambda>i. real i / 5) 3 =
     (Response 200 (UserCreated ''AGNV3''),
      db0\<lparr>User := [alice, bob, \<lparr>u_id = 3, username = ''carol'', password_hash = ''$2a$10$pw3'',
                                family_code = ''AGNV3'', viewers = []\<rparr>]\<rparr>) \<and>
   length ''AGNV3'' = 5 \<and> set ''AGNV3'' \<subseteq> set chars"
proof -
  have r: "\<forall>i<5. 0 \<le> real i / 5 \<and> real i / 5 < 1" by simp
  have e: "register libs0 db0 ''carol'' ''pw3'' (\<lambda>i. real i / 5) 3 =
     (Response 200 (UserCreated ''AGNV3''),
      db0\<lparr>User := [alice, bob, \<lparr>u_id = 3, username = ''carol'', password_hash = ''$2a$10$pw3'',
                                family_code = ''AGNV3'', viewers = []\<rparr>]\<rparr>)"
    by (simp add: register_def findOne_username_def insert_user_def generateCode_fifths
        db0_def alice_def bob_def libs0_def Let_def)
  from register_code_shape [OF r e] e show ?thesis by simp
qed

section \<open>Login\<close>

text \<open>
  What the handler does when the password is a string: an unknown username and a wrong
  password get the same response, status 400 with \<open>Invalid credentials\<close>.
\<close>

lemma login_string_failures:
  assumes "findOne_username (User s) un1 = None"
    and "findOne_username (User s) un2 = Some u"
    and "\<not> bcrypt_compare X pw2 (password_hash u)"
  shows "login X s un1 pw1 = Response 400 (Error ''Invalid credentials'') \<and>
         login X s un2 (FStr pw2) = Response 400 (Error ''Invalid credentials'')"
  using assms by (simp add: login_def compare_def)

text \<open>
  What it does when the password is missing or is not a string: for a username that
  exists \<open>bcrypt.compare\<close> throws and the answer is status 500, whatever the stored hash.
\<close>

lemma login_no_string_password:
  assumes "findOne_username (User s) un = Some u" and "\<forall>v. pw \<noteq> FStr v"
  shows "login X s un pw = Response 500 (Caught IllegalArguments)"
  using assms by (cases pw) (simp_all add: login_def compare_def)

text \<open>
  C4. The claim is that a failed login gets the same InvalidCredentials response
  whether the username does not exist or the password does not match, so that the
  caller cannot tell the two apart. The handler gives both branches the same status and
  message, but it passes the password to \<open>bcrypt.compare\<close> unchecked: a login without a
  password for the username of an Owner is answered with status 500 and the message of
  the exception, and the same login for an unknown username with status 400 and
  \<open>Invalid credentials\<close>. The response tells whether the username exists; with a wrong
  password that is a string it does not.
\<close>

theorem login_missing_password:
  "findOne_username (User db0) ''mallory'' = None \<and>
   findOne_username (User db0) ''alice'' = Some alice \<and>
   login libs0 db0 ''mallory'' FMissing = Response 400 (Error ''Invalid credentials'') \<and>
   login libs0 db0 ''alice'' FMissing = Response 500 (Caught IllegalArguments) \<and>
   login libs0 db0 ''alice'' (FStr ''guess'') = Response 400 (Error ''Invalid credentials'') \<and>
   login libs0 db0 ''alice'' (FStr ''pw1'') = Response 200 (LoggedIn ''j'' ''AAAAA'')"
  by (simp add: login_def compare_def findOne_username_def db0_def alice_def bob_def libs0_def)

section \<open>Records\<close>



text \<open>
  C7, as the specification states it, fails for a record id that is no ObjectId: such an
  id does not exist, and the delete is answered with status 500 and the message of the
  cast error, not with the acknowledgement. Nothing is removed.
\<close>

theorem delete_record_malformed_id_counterexample:
  "cast_ObjectId libs0 ''xyz'' = None \<and>
   delete_record libs0 KClass db0 1 ''xyz'' = (Response 500 (Caught CastError), db0) \<and>
   fst (delete_record libs0 KClass db0 1 ''xyz'') \<noteq> Response 200 Deleted"
  by (simp add: delete_record_def cast_ObjectId_def)

text \<open>
  C7, amended. For a record id that casts to an ObjectId, \<open>delete\<close> always acknowledges
  with \<open>Deleted\<close>. When no record of the collection has both that id and the
  authenticated owner's id (the id does not exist, or it is a record of another owner),
  the store is unchanged. Otherwise the only change is that one record with that id and
  that owner is removed from the collection; the other collections and the Owners are
  untouched. For a record id that does not cast to an ObjectId the answer is status 500
  and the store is unchanged.
\<close>

theorem delete_record_owner_only:
  "(cast_ObjectId X i = None \<longrightarrow>
      delete_record X k s userId i = (Response 500 (Caught CastError), s)) \<and>
   (\<forall>j. cast_ObjectId X i = Some j \<longrightarrow>
      fst (delete_record X k s userId i) = Response 200 Deleted \<and>
      ((\<forall>d \<in> set (coll k s). d_id d = j \<longrightarrow> owner_id d \<noteq> userId) \<longrightarrow>
         snd (delete_record X k s userId i) = s) \<and>
      (snd (delete_record X k s userId i) = s \<or>
       (\<exists>xs d ys. coll k s = xs @ d # ys \<and>
          coll k (snd (delete_record X k s userId i)) = xs @ ys \<and>
          d_id d = j \<and> owner_id d = userId)) \<and>
      (\<forall>k'. k' \<noteq> k \<longrightarrow> coll k' (snd (delete_record X k s userId i)) = coll k' s) \<and>
      User (snd (delete_record X k s userId i)) = User s)"
proof -
  have none: "delete_record X k s userId i = (Response 500 (Caught CastError), s)"
    if "cast_ObjectId X i = None"
    using that by (simp add: delete_record_def)
  have some: "fst (delete_record X k s userId i) = Response 200 Deleted \<and>
      ((\<forall>d \<in> set (coll k s). d_id d = j \<longrightarrow> owner_id d \<noteq> userId) \<longrightarrow>
         snd (delete_record X k s userId i) = s) \<and>
      (snd (delete_record X k s userId i) = s \<or>
       (\<exists>xs d ys. coll k s = xs @ d # ys \<and>
          coll k (snd (delete_record X k s userId i)) = xs @ ys \<and>
          d_id d = j \<and> owner_id d = userId)) \<and>
      (\<forall>k'. k' \<noteq> k \<longrightarrow> coll k' (snd (delete_record X k s userId i)) = coll k' s) \<and>
      User (snd (delete_record X k s userId i)) = User s"
    if j: "cast_ObjectId X i = Some j" for j
  proof -
    have r: "fst (delete_record X k s userId i) = Response 200 Deleted"
      and st: "snd (delete_record X k s userId i) = set_coll k (deleteOne j userId (coll k s)) s"
      using j by (simp_all add: delete_record_def)
    have a: "snd (delete_record X k s userId i) = s"
      if "\<forall>d \<in> set (coll k s). d_id d = j \<longrightarrow> owner_id d \<noteq> userId"
    proof -
      from that have "\<forall>d \<in> set (coll k s). \<not> (d_id d = j \<and> owner_id d = userId)" by blast
      then have "deleteOne j userId (coll k s) = coll k s" by (rule deleteOne_no_match)
      then show ?thesis by (simp add: st set_coll_same)
    qed
    have b: "snd (delete_record X k s userId i) = s \<or>
      (\<exists>xs d ys. coll k s = xs @ d # ys \<and>
         coll k (snd (delete_record X k s userId i)) = xs @ ys \<and>
         d_id d = j \<and> owner_id d = userId)"
      using deleteOne_cases [of j userId "coll k s"]
      by (auto simp: st set_coll_same coll_set_coll)
    have c: "\<forall>k'. k' \<noteq> k \<longrightarrow> coll k' (snd (delete_record X k s userId i)) = coll k' s"
      by (simp add: st coll_set_coll_other)
    have d: "User (snd (delete_record X k s userId i)) = User s"
      by (simp add: st User_set_coll)
    from r a b c d show ?thesis by blast
  qed
  from none some show ?thesis by blast
qed

theorem delete_record_owner_only_witness:
  "delete_record libs0 KClass db0 1 ''00000000000000000000000b'' = (Response 200 Deleted, db0) \<and>
   delete_record libs0 KClass db0 1 ''000000000000000000000063'' = (Response 200 Deleted, db0) \<and>
   delete_record libs0 KClass db0 1 ''00000000000000000000000a'' =
     (Response 200 Deleted, db0\<lparr>ClassSession := [physics]\<rparr>) \<and>
   delete_record libs0 KClass db0 1 ''xyz'' = (Response 500 (Caught CastError), db0)"
proof -
  have ids: "cast_ObjectId libs0 ''00000000000000000000000b'' = Some 11"
    "cast_ObjectId libs0 ''000000000000000000000063'' = Some 99"
    "cast_ObjectId libs0 ''00000000000000000000000a'' = Some 10"
    "cast_ObjectId libs0 ''xyz'' = None"
    by (simp_all add: cast_ObjectId_def libs0_def hex_value_def)
  have foreign: "\<forall>d \<in> set (coll KClass db0). d_id d = 11 \<longrightarrow> owner_id d \<noteq> 1"
    and missing: "\<forall>d \<in> set (coll KClass db0). d_id d = 99 \<longrightarrow> owner_id d \<noteq> 1"
    by (simp_all add: db0_def maths_def physics_def)
  from delete_record_owner_only [of libs0 "''00000000000000000000000b''" KClass db0 1]
    ids(1) foreign
  have "delete_record libs0 KClass db0 1 ''00000000000000000000000b'' = (Response 200 Deleted, db0)"
    by (simp add: prod_eq_iff)
  moreover from delete_record_owner_only [of libs0 "''000000000000000000000063''" KClass db0 1]
    ids(2) missing
  have "delete_record libs0 KClass db0 1 ''000000000000000000000063'' = (Response 200 Deleted, db0)"
    by (simp add: prod_eq_iff)
  moreover have "delete_record libs0 KClass db0 1 ''00000000000000000000000a'' =
      (Response 200 Deleted, db0\<lparr>ClassSession := [physics]\<rparr>)"
    by (simp add: delete_record_def ids) (simp add: db0_def maths_def physics_def)
  moreover from delete_record_owner_only [of libs0 "''xyz''" KClass db0 1] ids(4)
  have "delete_record libs0 KClass db0 1 ''xyz'' = (Response 500 (Caught CastError), db0)"
    by simp
  ultimately show ?thesis by simp
qed

text \<open>
  C1. Whatever the payload holds, an \<open>owner_id\<close> naming another owner included, a create
  of any of the three kinds either stores nothing (the save threw) or appends one record
  whose \<open>owner_id\<close> is the id of the session, and answers with that record. It does
  store it when the payload has no \<open>_id\<close>, the generated id is free and the schema
  accepts the other fields.
\<close>

theorem post_record_stamps_owner:
  "(case post_record X k s userId req_body gen of
      (None, s') \<Rightarrow> s' = s
    | (Some r, s') \<Rightarrow>
        (\<exists>d. r = Response 200 (Doc d) \<and> owner_id d = userId \<and>
             coll k s' = coll k s @ [d] \<and>
             (\<forall>k'. k' \<noteq> k \<longrightarrow> coll k' s' = coll k' s) \<and> User s' = User s)) \<and>
   (req_body ''_id'' = None \<and> gen \<notin> d_id ` set (coll k s) \<longrightarrow>
    (\<forall>fs. cast_fields X k (req_body ++ [''owner_id'' \<mapsto> JId userId]) = Some fs \<longrightarrow>
       post_record X k s userId req_body gen =
         (Some (Response 200 (Doc \<lparr>d_id = gen, owner_id = userId, paths = fs\<rparr>)),
          set_coll k (coll k s @ [\<lparr>d_id = gen, owner_id = userId, paths = fs\<rparr>]) s)))"
  by (auto simp: post_record_def new_document_def insert_document_def Let_def
      coll_set_coll coll_set_coll_other User_set_coll
      split: option.splits sum.splits jsval.splits)

theorem post_record_stamps_owner_witness:
  "post_record libs0 KNote db0 1 [''content'' \<mapsto> JStr ''hello'', ''owner_id'' \<mapsto> JId 2] 12 =
     (Some (Response 200 (Doc \<lparr>d_id = 12, owner_id = 1, paths = [''content'' \<mapsto> JStr ''hello'']\<rparr>)),
      db0\<lparr>Note := [\<lparr>d_id = 12, owner_id = 1, paths = [''content'' \<mapsto> JStr ''hello'']\<rparr>]\<rparr>)"
proof -
  let ?b = "[''content'' \<mapsto> JStr ''hello'', ''owner_id'' \<mapsto> JId 2]"
  have c: "cast_fields libs0 KNote (?b ++ [''owner_id'' \<mapsto> JId 1]) =
      Some [''content'' \<mapsto> JStr ''hello'']"
    by (auto simp: libs0_def restrict_map_def map_add_def fun_eq_iff)
  have i: "?b ''_id'' = None \<and> 12 \<notin> d_id ` set (coll KNote db0)"
    by (simp add: db0_def)
  from post_record_stamps_owner [where X = libs0 and k = KNote and s = db0 and userId = 1
      and req_body = ?b and gen = 12] c i
  show ?thesis by (simp add: db0_def)
qed

section \<open>Viewers\<close>

text \<open>
  C6, as the specification states it, fails twice. For the empty name \<open>if (name)\<close>
  skips the viewer list, so a join with the name \<open>""\<close> under a valid code is answered
  with \<open>Joined\<close> and leaves the store as it is, with no entry of that name, however often
  it is called. For a name that is the number 5 the comparison \<open>v.name === name\<close> never
  holds, so two joins store two entries \<open>"5"\<close>; after that, joins with the string
  \<open>"5"\<close> leave two entries of that name.
\<close>

theorem join_name_counterexample:
  "findOne_code (User db0) ''B2C3D'' = Some bob \<and>
   length (filter (\<lambda>v. name v = []) (viewers bob)) = 0 \<and>
   join db0 ''B2C3D'' (FStr []) 5 = (Response 200 (Joined ''B2C3D''), db0) \<and>
   join db0 ''B2C3D'' (FNum 5) 7 = (Response 200 (Joined ''B2C3D''), db_five) \<and>
   join db_five ''B2C3D'' (FNum 5) 8 = (Response 200 (Joined ''B2C3D''), db_five_twice) \<and>
   join db_five_twice ''B2C3D'' (FStr ''5'') 9 = (Response 200 (Joined ''B2C3D''), db_five_twice)"
  by (simp add: join_def findOne_code_def save_user_def toString_5
      db_five_def db_five_twice_def db0_def alice_def bob_def)

text \<open>
  C6, amended. For every valid code and every name that is a non-empty string, of which
  the resolved owner's viewer list holds at most one entry, both of two joins with that
  name report success, the second one leaves the store as the first one left it, and
  the resolved owner's viewer list then holds exactly one entry of that name.
\<close>

theorem join_twice:
  assumes u: "findOne_code (User s) code = Some u" and n: "n \<noteq> []"
    and c: "length (filter (\<lambda>v. name v = n) (viewers u)) \<le> 1"
  shows "fst (join s code (FStr n) t1) = Response 200 (Joined code) \<and>
         join (snd (join s code (FStr n) t1)) code (FStr n) t2 =
           (Response 200 (Joined code), snd (join s code (FStr n) t1)) \<and>
         (\<exists>u'. findOne_code (User (snd (join s code (FStr n) t1))) code = Some u' \<and>
               u_id u' = u_id u \<and>
               length (filter (\<lambda>v. name v = n) (viewers u')) = 1)"
proof -
  let ?s1 = "snd (join s code (FStr n) t1)"
  from u have uc: "family_code u = code"
    by (auto simp: findOne_code_def dest: find_SomeD)
  have r1: "fst (join s code (FStr n) t1) = Response 200 (Joined code)"
    using join_present [OF u, of n t1] join_absent [OF u n, of t1]
    by (cases "n \<in> name ` set (viewers u)") simp_all
  have one: "\<exists>u'. findOne_code (User ?s1) code = Some u' \<and> u_id u' = u_id u \<and>
      n \<in> name ` set (viewers u') \<and> length (filter (\<lambda>v. name v = n) (viewers u')) = 1"
  proof (cases "n \<in> name ` set (viewers u)")
    case True
    then have s1: "?s1 = s" using join_present [OF u True] by simp
    from filter_present_length [OF True] c
    have "length (filter (\<lambda>v. name v = n) (viewers u)) = 1" by simp
    with u True show ?thesis by (simp add: s1)
  next
    case False
    let ?u' = "u\<lparr>viewers := viewers u @ [\<lparr>name = n, joinedAt = t1\<rparr>]\<rparr>"
    have s1: "?s1 = s\<lparr>User := save_user (User s) ?u'\<rparr>"
      using join_absent [OF u n False] by simp
    from False have "filter (\<lambda>v. name v = n) (viewers u) = []"
      unfolding filter_empty_conv by blast
    then have cnt: "length (filter (\<lambda>v. name v = n) (viewers ?u')) = 1" by simp
    have "find (\<lambda>w. family_code w = code) (save_user (User s) ?u') = Some ?u'"
      by (rule find_after_save) (use u uc in \<open>simp_all add: findOne_code_def\<close>)
    then have "findOne_code (User ?s1) code = Some ?u'"
      by (simp add: s1 findOne_code_def)
    moreover have "n \<in> name ` set (viewers ?u')" by (simp add: image_iff)
    ultimately show ?thesis using cnt by (intro exI [of _ ?u']) simp
  qed
  then obtain u' where u': "findOne_code (User ?s1) code = Some u'" "u_id u' = u_id u"
    "n \<in> name ` set (viewers u')" "length (filter (\<lambda>v. name v = n) (viewers u')) = 1"
    by blast
  have r2: "join ?s1 code (FStr n) t2 = (Response 200 (Joined code), ?s1)"
    using u'(1,3) by (rule join_present)
  from r1 r2 u' show ?thesis by blast
qed

theorem join_twice_witness:
  "findOne_code (User db0) ''B2C3D'' = Some bob \<and>
   length (filter (\<lambda>v. name v = ''Mom'') (viewers bob)) \<le> 1 \<and>
   join db0 ''B2C3D'' (FStr ''Mom'') 5 =
     (Response 200 (Joined ''B2C3D''),
      db0\<lparr>User := [alice, bob\<lparr>viewers := [\<lparr>name = ''Mom'', joinedAt = 5\<rparr>]\<rparr>]\<rparr>) \<and>
   join (snd (join db0 ''B2C3D'' (FStr ''Mom'') 5)) ''B2C3D'' (FStr ''Mom'') 6 =
     (Response 200 (Joined ''B2C3D''),
      db0\<lparr>User := [alice, bob\<lparr>viewers := [\<lparr>name = ''Mom'', joinedAt = 5\<rparr>]\<rparr>]\<rparr>)"
proof -
  have f: "findOne_code (User db0) ''B2C3D'' = Some bob"
    by (simp add: findOne_code_def db0_def alice_def bob_def)
  have c: "length (filter (\<lambda>v. name v = ''Mom'') (viewers bob)) \<le> 1"
    by (simp add: bob_def)
  have j: "join db0 ''B2C3D'' (FStr ''Mom'') 5 =
     (Response 200 (Joined ''B2C3D''),
      db0\<lparr>User := [alice, bob\<lparr>viewers := [\<lparr>name = ''Mom'', joinedAt = 5\<rparr>]\<rparr>]\<rparr>)"
    by (simp add: join_def f save_user_def)
       (simp add: db0_def alice_def bob_def)
  from join_twice [OF f _ c, of 5 6] f c j
  show ?thesis by simp
qed



section \<open>The middleware\<close>

text \<open>
  C10, as stated, fails for the empty header: it contains no space, and \<open>!authHeader\<close>
  rejects it with \<open>Access denied\<close> (AuthenticationMissing), not with \<open>Invalid Token\<close>.
\<close>

theorem authenticate_empty_header_counterexample:
  "CHR '' '' \<notin> set [] \<and>
   authenticate libs0 (Some []) = Inl (Response 401 (Error ''Access denied'')) \<and>
   authenticate libs0 (Some []) \<noteq> Inl (Response 401 (Error ''Invalid Token''))"
  by (simp add: authenticate_def truthy_def)

text \<open>
  C10, amended. The middleware never looks at the scheme: for a header of a scheme
  without a space, a space and a rest, the token it verifies is the second
  space-separated part, the rest up to its first space, whatever the scheme is. A
  non-empty header without a space gives the token \<open>undefined\<close> and is rejected with
  \<open>Invalid Token\<close>; the empty header, like a missing one, is rejected with
  \<open>Access denied\<close>.
\<close>

theorem authenticate_ignores_scheme:
  "(CHR '' '' \<notin> set scheme \<longrightarrow>
      authenticate X (Some (scheme @ CHR '' '' # rest)) =
        (case jwt_verify X (takeWhile (\<lambda>c. c \<noteq> CHR '' '') rest) of
           Some userId \<Rightarrow> Inr userId
         | None \<Rightarrow> Inl (Response 401 (Error ''Invalid Token'')))) \<and>
   (h \<noteq> [] \<and> CHR '' '' \<notin> set h \<longrightarrow>
      authenticate X (Some h) = Inl (Response 401 (Error ''Invalid Token''))) \<and>
   authenticate X (Some []) = Inl (Response 401 (Error ''Access denied'')) \<and>
   authenticate X None = Inl (Response 401 (Error ''Access denied''))"
proof -
  have a: "authenticate X (Some (scheme @ CHR '' '' # rest)) =
        (case jwt_verify X (takeWhile (\<lambda>c. c \<noteq> CHR '' '') rest) of
           Some userId \<Rightarrow> Inr userId
         | None \<Rightarrow> Inl (Response 401 (Error ''Invalid Token'')))"
    if "CHR '' '' \<notin> set scheme"
  proof -
    have "nth_opt (split_space (scheme @ CHR '' '' # rest)) 1 =
        Some (takeWhile (\<lambda>c. c \<noteq> CHR '' '') rest)"
      using split_space_first [OF that, of rest] split_space_hd [of rest] by simp
    then show ?thesis
      by (simp add: authenticate_def truthy_def verify_def)
  qed
  have b: "authenticate X (Some h) = Inl (Response 401 (Error ''Invalid Token''))"
    if "h \<noteq> []" "CHR '' '' \<notin> set h"
    using that split_space_no_space [OF that(2)]
    by (simp add: authenticate_def truthy_def verify_def)
  have c: "authenticate X (Some []) = Inl (Response 401 (Error ''Access denied''))"
    "authenticate X None = Inl (Response 401 (Error ''Access denied''))"
    by (simp_all add: authenticate_def truthy_def)
  from a b c show ?thesis by blast
qed

theorem authenticate_ignores_scheme_witness:
  "authenticate libs0 (Some ''Bearer jj'') = Inr 2 \<and>
   authenticate libs0 (Some ''Basic jj'') = Inr 2 \<and>
   authenticate libs0 (Some ''jj'') = Inl (Response 401 (Error ''Invalid Token''))"
proof -
  have v: "jwt_verify libs0 ''jj'' = Some 2" by (simp add: libs0_def)
  from authenticate_ignores_scheme [of "''Bearer''" libs0 "''jj''" "''jj''"]
    authenticate_ignores_scheme [of "''Basic''" libs0 "''jj''" "''jj''"] v
  show ?thesis by simp
qed

end
